theory Spec2Isabelle
  imports Complex_Main
begin

section \<open>The editor runtime: documents\<close>

text \<open>
  The document and its transactions belong to the editor runtime (prosemirror), which the
  plugin only calls. Following the data model of the specification, a document is flat
  text addressed by half-open character offsets; every character carries its marks.
  The runtime rejects positions outside the document with a RangeError.
\<close>

type_synonym mark = string

type_synonym document = "(char \<times> mark list) list"

datatype js_error = RangeError | Error string

definition text_of :: "document \<Rightarrow> string" where
  "text_of d = map fst d"

text \<open>\<^verbatim>\<open>doc.textBetween(from, to)\<close>\<close>

definition textBetween :: "document \<Rightarrow> nat \<Rightarrow> nat \<Rightarrow> string" where
  "textBetween d from to = take (to - from) (drop from (text_of d))"

text \<open>\<^verbatim>\<open>tr.insert(pos, schema.text(text, marks))\<close>\<close>

definition tr_insert :: "document \<Rightarrow> nat \<Rightarrow> string \<Rightarrow> mark list \<Rightarrow> js_error + document" where
  "tr_insert d pos text marks =
     (if pos \<le> length d
      then Inr (take pos d @ map (\<lambda>c. (c, marks)) text @ drop pos d)
      else Inl RangeError)"

text \<open>\<^verbatim>\<open>tr.delete(from, to)\<close>\<close>

definition tr_delete :: "document \<Rightarrow> nat \<Rightarrow> nat \<Rightarrow> js_error + document" where
  "tr_delete d from to =
     (if from \<le> to \<and> to \<le> length d
      then Inr (take from d @ drop to d)
      else Inl RangeError)"

text \<open>
  \<^verbatim>\<open>doc.resolve(a).marksAcross(doc.resolve(b))\<close> is the runtime's mark query; it answers
  \<^verbatim>\<open>null\<close> (here \<open>None\<close>) where no marks are to be preserved. It is a parameter of the
  model.
\<close>

type_synonym marks_query = "document \<Rightarrow> nat \<Rightarrow> nat \<Rightarrow> mark list option"

text \<open>\<^verbatim>\<open>doc.resolve(pos)\<close>: a position outside the document is a RangeError.\<close>

definition resolve :: "document \<Rightarrow> int \<Rightarrow> js_error + nat" where
  "resolve d pos =
     (if 0 \<le> pos \<and> pos \<le> int (length d) then Inr (nat pos) else Inl RangeError)"

section \<open>The diff patcher\<close>

text \<open>
  A run of the character diff (\<^verbatim>\<open>jsDiff.diffChars\<close>): the library's \<^verbatim>\<open>Change\<close> object
  \<^verbatim>\<open>{ value, count?, added?, removed? }\<close>. An absent \<^verbatim>\<open>count\<close> is \<open>None\<close>; an absent
  flag is \<open>False\<close>.
\<close>

record change =
  c_value :: string
  c_count :: "nat option"
  added :: bool
  removed :: bool

text \<open>
  The mark resolver of an insertion is a closure over \<^verbatim>\<open>newFrom\<close> and \<^verbatim>\<open>newTo\<close>, run
  against the transaction at the moment the patch is applied. The two closures of the source
  are the two constructors; \<open>runGetMarks\<close> is their body, with its calls of
  \<^verbatim>\<open>resolve\<close> in the order of the source.
\<close>

datatype mark_resolver =
    MarksOfLastChar nat
  | MarksAcrossRange nat nat

fun runGetMarks :: "marks_query \<Rightarrow> mark_resolver \<Rightarrow> document \<Rightarrow> js_error + mark list" where
  "runGetMarks marksAcross (MarksOfLastChar newFrom) d =
     (case resolve d (int newFrom) of
        Inl e \<Rightarrow> Inl e
      | Inr rNewFrom \<Rightarrow>
          (case resolve d (int newFrom - 1) of
             Inl e \<Rightarrow> Inl e
           | Inr rLastCharFrom \<Rightarrow>
               Inr (case marksAcross d rLastCharFrom rNewFrom of None \<Rightarrow> [] | Some ms \<Rightarrow> ms)))"
| "runGetMarks marksAcross (MarksAcrossRange newFrom newTo) d =
     (case resolve d (int newTo) of
        Inl e \<Rightarrow> Inl e
      | Inr rNewTo \<Rightarrow>
          (case resolve d (int newFrom) of
             Inl e \<Rightarrow> Inl e
           | Inr rNewFrom \<Rightarrow>
               Inr (case marksAcross d rNewFrom rNewTo of None \<Rightarrow> [] | Some ms \<Rightarrow> ms)))"

datatype suggestion_patch =
    DELETE (p_from: nat) (p_to: nat)
  | INSERT (p_from: nat) (p_to: nat) (p_text: string) (getMarks: mark_resolver)

record walk_acc =
  fragments :: "suggestion_patch list"
  currentPos :: nat

text \<open>\<^verbatim>\<open>currentFragments[currentFragments.length - 1]\<close>, undefined on the empty array.\<close>

definition prevFragment :: "suggestion_patch list \<Rightarrow> suggestion_patch option" where
  "prevFragment currentFragments =
     (if currentFragments = [] then None else Some (last currentFragments))"

text \<open>\<^verbatim>\<open>!!prevFragment && (prevFragment.to || 0) < newFrom\<close>\<close>

definition isInsertion :: "suggestion_patch list \<Rightarrow> nat \<Rightarrow> bool" where
  "isInsertion currentFragments newFrom =
     (case prevFragment currentFragments of
        None \<Rightarrow> False
      | Some prev \<Rightarrow> (if p_to prev = 0 then 0 else p_to prev) < newFrom)"

text \<open>The callback of \<^verbatim>\<open>patches.reduce\<close>, with its checks in the order of the source.\<close>

definition reduceStep :: "nat \<Rightarrow> walk_acc \<Rightarrow> change \<Rightarrow> walk_acc" where
  "reduceStep from acc patch =
     (case c_count patch of
        None \<Rightarrow> acc
      | Some count \<Rightarrow>
          if count = 0 then acc
          else if \<not> added patch \<and> \<not> removed patch
          then \<lparr>fragments = fragments acc, currentPos = currentPos acc + count\<rparr>
          else
            let newFrom = from + currentPos acc;
                newTo = newFrom + count
            in if removed patch
               then \<lparr>fragments = fragments acc @ [DELETE newFrom newTo],
                     currentPos = currentPos acc\<rparr>
               else
                 let resolver =
                       (if isInsertion (fragments acc) newFrom
                        then MarksOfLastChar newFrom
                        else MarksAcrossRange newFrom newTo)
                 in \<lparr>fragments = fragments acc @ [INSERT newFrom newTo (c_value patch) resolver],
                     currentPos = currentPos acc + count\<rparr>)"

definition walk :: "nat \<Rightarrow> change list \<Rightarrow> walk_acc" where
  "walk from patches = foldl (reduceStep from) \<lparr>fragments = [], currentPos = 0\<rparr> patches"

text \<open>
  \<open>diffChars\<close> is the character diff of the library, a parameter: the patcher is correct
  for whatever runs it returns.
\<close>

definition getReplacementFragmentsFromReplacement ::
  "(string \<Rightarrow> string \<Rightarrow> change list) \<Rightarrow> document \<Rightarrow> nat \<Rightarrow> nat \<Rightarrow> string \<Rightarrow> suggestion_patch list"
where
  "getReplacementFragmentsFromReplacement diffChars d from to replacement =
     (let currentText = textBetween d from to;
          patches = diffChars currentText replacement
      in fragments (walk from patches))"

fun applyFragmentToTransaction ::
  "marks_query \<Rightarrow> document \<Rightarrow> suggestion_patch \<Rightarrow> js_error + document"
where
  "applyFragmentToTransaction marksAcross d (INSERT from to text resolver) =
     (case runGetMarks marksAcross resolver d of
        Inl e \<Rightarrow> Inl e
      | Inr marks \<Rightarrow> tr_insert d from text marks)"
| "applyFragmentToTransaction marksAcross d (DELETE from to) = tr_delete d from to"

text \<open>Patches are applied one after the other, in the order produced; an error stops the batch.\<close>

fun applyFragments ::
  "marks_query \<Rightarrow> document \<Rightarrow> suggestion_patch list \<Rightarrow> js_error + document"
where
  "applyFragments marksAcross d [] = Inr d"
| "applyFragments marksAcross d (p # ps) =
     (case applyFragmentToTransaction marksAcross d p of
        Inl e \<Rightarrow> Inl e
      | Inr d' \<Rightarrow> applyFragments marksAcross d' ps)"

text \<open>
  What the patcher expects of the diff: every run counts the characters of its value, no run
  is both added and removed, the runs that are not added spell the old text and the runs
  that are not removed spell the new text.
\<close>

definition run_ok :: "change \<Rightarrow> bool" where
  "run_ok c = (c_count c = Some (length (c_value c)) \<and> \<not> (added c \<and> removed c))"

definition old_text :: "change list \<Rightarrow> string" where
  "old_text cs = concat (map c_value (filter (\<lambda>c. \<not> added c) cs))"

definition new_text :: "change list \<Rightarrow> string" where
  "new_text cs = concat (map c_value (filter (\<lambda>c. \<not> removed c) cs))"

definition is_edit_script :: "change list \<Rightarrow> string \<Rightarrow> string \<Rightarrow> bool" where
  "is_edit_script cs old new = (list_all run_ok cs \<and> old_text cs = old \<and> new_text cs = new)"


subsection \<open>Example inputs\<close>

text \<open>Unmarked text as a document, and a runtime in which no position has marks.\<close>

definition plain :: "string \<Rightarrow> document" where
  "plain s = map (\<lambda>c. (c, [])) s"

definition no_marks :: marks_query where
  "no_marks d a b = None"

definition equal_run :: "string \<Rightarrow> change" where
  "equal_run s = \<lparr>c_value = s, c_count = Some (length s), added = False, removed = False\<rparr>"

definition added_run :: "string \<Rightarrow> change" where
  "added_run s = \<lparr>c_value = s, c_count = Some (length s), added = True, removed = False\<rparr>"

definition removed_run :: "string \<Rightarrow> change" where
  "removed_run s = \<lparr>c_value = s, c_count = Some (length s), added = False, removed = True\<rparr>"

text \<open>
  A character diff for the examples: the runs of the library on the pairs named here
  (removals before additions), and the whole-text replacement on every other pair.
\<close>

definition example_diffChars :: "string \<Rightarrow> string \<Rightarrow> change list" where
  "example_diffChars old new =
     (if old = [] \<and> new = [] then [equal_run []]
      else if old = ''cat'' \<and> new = ''cats'' then [equal_run ''cat'', added_run ''s'']
      else if old = ''cat'' \<and> new = ''dog'' then [removed_run ''cat'', added_run ''dog'']
      else if old = ''ab'' \<and> new = ''xayb''
        then [added_run ''x'', equal_run ''a'', added_run ''y'', equal_run ''b'']
      else [removed_run old, added_run new])"

section \<open>The Typerighter adapter\<close>

record IValidationInput =
  in_id :: string
  in_str :: string
  in_from :: int
  in_to :: int

text \<open>One entry of \<^verbatim>\<open>ITypeRighterResponse.results\<close>.\<close>

record TyperighterMatch =
  fromPos :: int
  toPos :: int
  match_message :: string
  rule_description :: string
  suggestedReplacements :: "string list"

record ValidationOutput =
  out_id :: string
  out_str :: string
  out_from :: int
  out_to :: int
  annotation :: string
  out_type :: string
  suggestions :: "string list"

text \<open>
  The HTTP response as the adapter reads it: \<^verbatim>\<open>status\<close>, \<^verbatim>\<open>statusText\<close>, and the body
  that \<^verbatim>\<open>response.json()\<close> delivers, typed as \<^verbatim>\<open>ITypeRighterResponse\<close>.
\<close>

record HttpResponse =
  status :: nat
  statusText :: string
  results :: "TyperighterMatch list"

record HttpRequest =
  req_url :: string
  req_method :: string
  req_content_type :: string
  req_text :: string

text \<open>A number in a template literal: its decimal digits.\<close>

definition digit :: "nat \<Rightarrow> char" where
  "digit n = ''0123456789'' ! (n mod 10)"

fun decimal :: "nat \<Rightarrow> string" where
  "decimal n = (if n < 10 then [digit n] else decimal (n div 10) @ [digit n])"

text \<open>
  \<open>fetch\<close> is the network: it rejects with an error or resolves to a response. The adapter
  is asynchronous; its promise rejects (\<open>Inl\<close>) or resolves (\<open>Inr\<close>).
\<close>

definition createTyperighterAdapter ::
  "(HttpRequest \<Rightarrow> js_error + HttpResponse) \<Rightarrow> string \<Rightarrow> IValidationInput
     \<Rightarrow> js_error + ValidationOutput list"
where
  "createTyperighterAdapter fetch apiUrl input =
     (case fetch \<lparr>req_url = apiUrl, req_method = ''POST'',
                  req_content_type = ''application/json'', req_text = in_str input\<rparr> of
        Inl e \<Rightarrow> Inl e
      | Inr response \<Rightarrow>
          if status response \<noteq> 200
          then Inl (Error (''Error fetching validations. The server responded with status code ''
                           @ decimal (status response) @ '': '' @ statusText response))
          else Inr (map (\<lambda>match.
                 \<lparr>out_id = in_id input,
                  out_str = in_str input,
                  out_from = in_from input + fromPos match,
                  out_to = in_from input + toPos match,
                  annotation = match_message match,
                  out_type = rule_description match,
                  suggestions = suggestedReplacements match\<rparr>) (results response)))"

section \<open>The validation lifecycle\<close>

record Range =
  r_from :: nat
  r_to :: nat

record ValidationInput =
  vi_str :: string
  vi_from :: nat
  vi_to :: nat

record ValidationResponse =
  validationOutputs :: "ValidationOutput list"

text \<open>
  \<^verbatim>\<open>ValidationError\<close>: the failed input, the id of the request and a message. The handler
  reads the id through \<^verbatim>\<open>parseInt(String(id), 10)\<close>, which gives an integer id back as
  it is.
\<close>

record ValidationError =
  validationInput :: ValidationInput
  err_id :: int
  err_message :: string

text \<open>
  An edit operation is opaque but for its position mapping \<^verbatim>\<open>map(pos, bias)\<close>; a
  transaction is its timestamp, its edit operations and the document it produces.
\<close>

datatype bias = BiasStart | BiasEnd

type_synonym EditOperation = "nat \<Rightarrow> bias \<Rightarrow> nat"

record Transaction =
  time :: int
  steps :: "EditOperation list"
  doc :: document

record Decoration =
  dec_from :: nat
  dec_to :: nat
  dec_type :: string

text \<open>
  The decoration collection of the runtime, as the list of its decorations:
  \<^verbatim>\<open>find(undefined, undefined, predicate)\<close>, \<^verbatim>\<open>remove(decorations)\<close> and
  \<^verbatim>\<open>add(doc, decorations)\<close>.
\<close>

type_synonym DecorationSet = "Decoration list"

definition ds_find :: "DecorationSet \<Rightarrow> (Decoration \<Rightarrow> bool) \<Rightarrow> Decoration list" where
  "ds_find ds predicate = filter predicate ds"

definition ds_remove :: "DecorationSet \<Rightarrow> Decoration list \<Rightarrow> DecorationSet" where
  "ds_remove ds decs = filter (\<lambda>d. d \<notin> set decs) ds"

definition ds_add :: "DecorationSet \<Rightarrow> document \<Rightarrow> Decoration list \<Rightarrow> DecorationSet" where
  "ds_add ds d decs = ds @ decs"

record StateHoverInfo =
  offsetLeft :: real
  offsetTop :: real
  left :: real
  top :: real
  height :: real
  mouseOffsetX :: real
  mouseOffsetY :: real
  heightOfSingleLine :: real

record InFlight =
  validationInputs :: "ValidationInput list"
  inflight_id :: int

record PluginState =
  debug :: bool
  initialThrottle :: int
  currentThrottle :: int
  maxThrottle :: int
  decorations :: DecorationSet
  currentValidations :: "ValidationOutput list"
  dirtiedRanges :: "Range list"
  hoverId :: "string option"
  hoverInfo :: "StateHoverInfo option"
  trHistory :: "Transaction list"
  validationPending :: bool
  validationInFlight :: "InFlight option"
  error :: "string option"

text \<open>
  The helpers of \<^verbatim>\<open>utils/decoration\<close> and two of \<^verbatim>\<open>utils/range\<close> that the handlers
  call are parameters of the reducer. An omitted optional argument is \<open>None\<close>.
\<close>

record Helpers =
  getRangesOfParentBlockNodes :: "Range list \<Rightarrow> document \<Rightarrow> Range list"
  mergeOutputsFromValidationResponse ::
    "ValidationResponse \<Rightarrow> ValidationOutput list \<Rightarrow> Transaction list \<Rightarrow> ValidationOutput list"
  getNewDecorationsForCurrentValidations ::
    "ValidationOutput list \<Rightarrow> DecorationSet \<Rightarrow> document \<Rightarrow> DecorationSet"
  createDebugDecorationFromRange :: "Range \<Rightarrow> bool option \<Rightarrow> Decoration"
  removeValidationDecorationsFromRanges :: "DecorationSet \<Rightarrow> Range list \<Rightarrow> string \<Rightarrow> DecorationSet"
  DECORATION_INFLIGHT :: string
  DECORATION_DIRTY :: string

text \<open>
  Modelled from the spec: \<^verbatim>\<open>validationInputToRange\<close> of \<^verbatim>\<open>utils/range\<close>, the original
  range of a validation input.
\<close>

definition validationInputToRange :: "ValidationInput \<Rightarrow> Range" where
  "validationInputToRange input = \<lparr>r_from = vi_from input, r_to = vi_to input\<rparr>"

text \<open>
  Modelled from the spec: \<^verbatim>\<open>mapRange\<close> of \<^verbatim>\<open>utils/range\<close> (section 4.1). It maps
  \<^verbatim>\<open>from\<close> with a bias toward the start of inserted content and \<^verbatim>\<open>to\<close> with a bias
  toward its end, through the edit operations in order.
\<close>

definition mapRange :: "Range \<Rightarrow> EditOperation list \<Rightarrow> Range" where
  "mapRange r ops =
     \<lparr>r_from = foldl (\<lambda>pos m. m pos BiasStart) (r_from r) ops,
      r_to = foldl (\<lambda>pos m. m pos BiasEnd) (r_to r) ops\<rparr>"

text \<open>
  Modelled from the spec: \<^verbatim>\<open>mapRangeThroughTransactions\<close> of \<^verbatim>\<open>utils/range\<close>
  (section 4.1). It selects the transactions of the history with an id greater than
  \<^verbatim>\<open>fromTransactionId\<close> and applies their edit operations in order.
\<close>

definition editOperationsSince :: "int \<Rightarrow> Transaction list \<Rightarrow> EditOperation list" where
  "editOperationsSince fromTransactionId transactionHistory =
     concat (map steps (filter (\<lambda>t. fromTransactionId < time t) transactionHistory))"

definition mapRangeThroughTransactions ::
  "Range list \<Rightarrow> int \<Rightarrow> Transaction list \<Rightarrow> Range list"
where
  "mapRangeThroughTransactions ranges fromTransactionId transactionHistory =
     map (\<lambda>r. mapRange r (editOperationsSince fromTransactionId transactionHistory)) ranges"

text \<open>
  Modelled from the spec: \<^verbatim>\<open>mergeRanges\<close> of \<^verbatim>\<open>utils/range\<close> (section 4.2). It sorts by
  \<^verbatim>\<open>from\<close>, then scans left to right, merging any range whose \<^verbatim>\<open>from\<close> is at most the
  previous \<^verbatim>\<open>to\<close> into the previous range, with \<^verbatim>\<open>to = max(previous.to, current.to)\<close>.
\<close>

fun mergeScan :: "Range list \<Rightarrow> Range list" where
  "mergeScan (previous # current # rest) =
     (if r_from current \<le> r_to previous
      then mergeScan (previous\<lparr>r_to := max (r_to previous) (r_to current)\<rparr> # rest)
      else previous # mergeScan (current # rest))"
| "mergeScan ranges = ranges"

definition mergeRanges :: "Range list \<Rightarrow> Range list" where
  "mergeRanges ranges = mergeScan (sort_key r_from ranges)"

text \<open>The actions, one constructor for each action creator.\<close>

datatype Action =
    NEW_HOVER_ID "string option" "StateHoverInfo option"
  | VALIDATION_REQUEST_PENDING
  | VALIDATION_REQUEST_START
  | VALIDATION_REQUEST_SUCCESS "ValidationResponse option"
  | VALIDATION_REQUEST_ERROR ValidationError

definition handleNewHoverId ::
  "Transaction \<Rightarrow> PluginState \<Rightarrow> string option \<Rightarrow> StateHoverInfo option \<Rightarrow> PluginState"
where
  "handleNewHoverId tr state payload_hoverId payload_hoverInfo =
     state\<lparr>hoverId := payload_hoverId, hoverInfo := payload_hoverInfo\<rparr>"

definition handleValidationRequestPending :: "Transaction \<Rightarrow> PluginState \<Rightarrow> PluginState" where
  "handleValidationRequestPending tr state = state\<lparr>validationPending := True\<rparr>"

definition handleValidationRequestStart ::
  "Helpers \<Rightarrow> Transaction \<Rightarrow> PluginState \<Rightarrow> PluginState"
where
  "handleValidationRequestStart h tr state =
     (let expandedRanges = getRangesOfParentBlockNodes h (dirtiedRanges state) (doc tr);
          inputs = map (\<lambda>range.
                     \<lparr>vi_str = textBetween (doc tr) (r_from range) (r_to range),
                      vi_from = r_from range, vi_to = r_to range\<rparr>) expandedRanges;
          decs = ds_add
                   (removeValidationDecorationsFromRanges h (decorations state) expandedRanges
                      (DECORATION_DIRTY h))
                   (doc tr)
                   (map (\<lambda>range. createDebugDecorationFromRange h range (Some False))
                      expandedRanges)
      in state\<lparr>decorations := decs,
               dirtiedRanges := [],
               validationPending := False,
               validationInFlight := Some \<lparr>validationInputs = inputs, inflight_id = time tr\<rparr>\<rparr>)"

definition handleValidationRequestSuccess ::
  "Helpers \<Rightarrow> Transaction \<Rightarrow> PluginState \<Rightarrow> ValidationResponse option \<Rightarrow> PluginState"
where
  "handleValidationRequestSuccess h tr state payload_response =
     (case payload_response of
        None \<Rightarrow> state
      | Some response \<Rightarrow>
          if validationOutputs response \<noteq> []
          then
            let newValidations = mergeOutputsFromValidationResponse h response
                                   (currentValidations state) (trHistory state);
                decs = getNewDecorationsForCurrentValidations h newValidations
                         (decorations state) (doc tr);
                decsToRemove = ds_find (decorations state)
                                 (\<lambda>d. dec_type d = DECORATION_INFLIGHT h)
            in state\<lparr>validationInFlight := None,
                     currentValidations := newValidations,
                     decorations := ds_remove decs decsToRemove\<rparr>
          else state)"

definition handleValidationRequestError ::
  "Helpers \<Rightarrow> Transaction \<Rightarrow> PluginState \<Rightarrow> ValidationError \<Rightarrow> PluginState"
where
  "handleValidationRequestError h tr state validationError =
     (let decsToRemove = ds_find (decorations state) (\<lambda>d. dec_type d = DECORATION_INFLIGHT h);
          dirtied = mapRangeThroughTransactions
                      [validationInputToRange (validationInput validationError)]
                      (err_id validationError) (trHistory state);
          decs0 = ds_remove (decorations state) decsToRemove;
          decs = (if dirtied \<noteq> []
                  then ds_add decs0 (doc tr)
                         (map (\<lambda>range. createDebugDecorationFromRange h range None) dirtied)
                  else decs0)
      in state\<lparr>dirtiedRanges :=
                 (if dirtied \<noteq> [] then mergeRanges (dirtiedRanges state @ dirtied)
                  else dirtiedRanges state),
               decorations := decs,
               validationInFlight := None,
               error := Some (err_message validationError)\<rparr>)"

fun validationPluginReducer ::
  "Helpers \<Rightarrow> Transaction \<Rightarrow> PluginState \<Rightarrow> Action \<Rightarrow> PluginState"
where
  "validationPluginReducer h tr state (NEW_HOVER_ID i info) = handleNewHoverId tr state i info"
| "validationPluginReducer h tr state VALIDATION_REQUEST_PENDING =
     handleValidationRequestPending tr state"
| "validationPluginReducer h tr state VALIDATION_REQUEST_START =
     handleValidationRequestStart h tr state"
| "validationPluginReducer h tr state (VALIDATION_REQUEST_SUCCESS response) =
     handleValidationRequestSuccess h tr state response"
| "validationPluginReducer h tr state (VALIDATION_REQUEST_ERROR validationError) =
     handleValidationRequestError h tr state validationError"


section \<open>Example states and responses\<close>

text \<open>
  Stand-ins for the helper parameters, a transaction and a plugin state with one dirty range,
  and the state the reducer makes of it when the request starts.
\<close>

definition example_helpers :: Helpers where
  "example_helpers =
     \<lparr>getRangesOfParentBlockNodes = (\<lambda>ranges d. ranges),
      mergeOutputsFromValidationResponse =
        (\<lambda>response current history. current @ validationOutputs response),
      getNewDecorationsForCurrentValidations = (\<lambda>validations decs d. decs),
      createDebugDecorationFromRange =
        (\<lambda>range dirty.
           \<lparr>dec_from = r_from range, dec_to = r_to range,
            dec_type = (if dirty = Some False then ''DECORATION_INFLIGHT''
                        else ''DECORATION_DIRTY'')\<rparr>),
      removeValidationDecorationsFromRanges =
        (\<lambda>decs ranges type. filter (\<lambda>d. dec_type d \<noteq> type) decs),
      DECORATION_INFLIGHT = ''DECORATION_INFLIGHT'',
      DECORATION_DIRTY = ''DECORATION_DIRTY''\<rparr>"

definition example_tr :: Transaction where
  "example_tr = \<lparr>time = 10, steps = [], doc = plain ''0123456789abc''\<rparr>"

definition example_state :: PluginState where
  "example_state =
     \<lparr>debug = False, initialThrottle = 500, currentThrottle = 500, maxThrottle = 8000,
      decorations = [], currentValidations = [],
      dirtiedRanges = [\<lparr>r_from = 5, r_to = 10\<rparr>],
      hoverId = None, hoverInfo = None, trHistory = [example_tr],
      validationPending = True, validationInFlight = None, error = None\<rparr>"

definition example_inflight_state :: PluginState where
  "example_inflight_state =
     validationPluginReducer example_helpers example_tr example_state VALIDATION_REQUEST_START"

text \<open>A server that answers every request with the given status and one match.\<close>

definition example_fetch :: "nat \<Rightarrow> string \<Rightarrow> HttpRequest \<Rightarrow> js_error + HttpResponse" where
  "example_fetch code reason request =
     Inr \<lparr>status = code, statusText = reason,
          results = [\<lparr>fromPos = 2, toPos = 5, match_message = ''Spelling'',
                      rule_description = ''Dictionary'', suggestedReplacements = [''cat'']\<rparr>]\<rparr>"

definition example_input :: IValidationInput where
  "example_input = \<lparr>in_id = ''v1'', in_str = ''a kat sat'', in_from = 20, in_to = 29\<rparr>"

section \<open>Properties of the diff patcher\<close>

declare decimal.simps [simp del]

lemmas ex_defs = example_diffChars_def equal_run_def added_run_def removed_run_def plain_def
  getReplacementFragmentsFromReplacement_def walk_def reduceStep_def isInsertion_def prevFragment_def
  textBetween_def text_of_def is_edit_script_def run_ok_def old_text_def new_text_def
  tr_insert_def tr_delete_def no_marks_def resolve_def

lemma applyFragments_append:
  "applyFragments ma d (ps @ qs) =
     (case applyFragments ma d ps of Inl e \<Rightarrow> Inl e | Inr d' \<Rightarrow> applyFragments ma d' qs)"
  by (induction ps arbitrary: d) (auto split: sum.splits)

lemma text_of_tr_insert:
  "tr_insert d pos t ms = Inr d' \<Longrightarrow>
   pos \<le> length d \<and> text_of d' = take pos (text_of d) @ t @ drop pos (text_of d)"
  by (auto simp: tr_insert_def text_of_def take_map drop_map comp_def split: if_splits)

lemma text_of_tr_delete:
  "tr_delete d a b = Inr d' \<Longrightarrow>
   a \<le> b \<and> b \<le> length d \<and> text_of d' = take a (text_of d) @ drop b (text_of d)"
  by (auto simp: tr_delete_def text_of_def take_map drop_map split: if_splits)

lemma applyFragments_snoc_Inr:
  "applyFragments ma d (ps @ [p]) = Inr d'' \<Longrightarrow>
   \<exists>d'. applyFragments ma d ps = Inr d' \<and> applyFragmentToTransaction ma d' p = Inr d''"
  by (auto simp: applyFragments_append split: sum.splits)

lemma apply_insert_Inr:
  "applyFragmentToTransaction ma d (INSERT a b t r) = Inr d' \<Longrightarrow>
   \<exists>ms. runGetMarks ma r d = Inr ms \<and> tr_insert d a t ms = Inr d'"
  by (auto split: sum.splits)

lemma walk_snoc: "walk from (cs @ [c]) = reduceStep from (walk from cs) c"
  by (simp add: walk_def)

lemma old_text_snoc:
  "old_text (cs @ [c]) = old_text cs @ (if added c then [] else c_value c)"
  by (simp add: old_text_def)

lemma new_text_snoc:
  "new_text (cs @ [c]) = new_text cs @ (if removed c then [] else c_value c)"
  by (simp add: new_text_def)

lemma walk_currentPos:
  "list_all run_ok cs \<Longrightarrow> currentPos (walk from cs) = length (new_text cs)"
proof (induction cs rule: rev_induct)
  case Nil
  then show ?case by (simp add: walk_def new_text_def)
next
  case (snoc c cs)
  then have "currentPos (walk from cs) = length (new_text cs)"
    and "c_count c = Some (length (c_value c))" and "\<not> (added c \<and> removed c)"
    by (simp_all add: run_ok_def)
  then show ?case
    by (auto simp: walk_snoc new_text_snoc reduceStep_def Let_def)
qed

text \<open>
  Whenever the patches of an edit script apply without an error, the patched text is the
  text before the region, the new text and the text after the region.
\<close>

lemma walk_applied_text:
  "list_all run_ok cs \<Longrightarrow> text_of d = pre @ old_text cs @ rest \<Longrightarrow> length pre = from \<Longrightarrow>
   applyFragments ma d (fragments (walk from cs)) = Inr d' \<Longrightarrow>
   text_of d' = pre @ new_text cs @ rest"
proof (induction cs arbitrary: rest d' rule: rev_induct)
  case Nil
  then show ?case by (simp add: walk_def old_text_def new_text_def)
next
  case (snoc c cs)
  let ?v = "c_value c"
  let ?acc = "walk from cs"
  let ?p = "from + length (new_text cs)"
  from snoc.prems(1) have ok: "list_all run_ok cs" and c: "run_ok c" by simp_all
  from c have cnt: "c_count c = Some (length ?v)" and nb: "\<not> (added c \<and> removed c)"
    by (simp_all add: run_ok_def)
  have pos: "currentPos ?acc = length (new_text cs)" using ok by (rule walk_currentPos)
  have T: "text_of d = pre @ old_text cs @ ((if added c then [] else ?v) @ rest)"
    using snoc.prems(2) by (simp add: old_text_snoc)
  note IH = snoc.IH[OF ok T snoc.prems(3)]
  show ?case
  proof (cases "?v = []")
    case True
    have "reduceStep from ?acc c = ?acc" using True cnt by (simp add: reduceStep_def)
    with snoc.prems(4) have "applyFragments ma d (fragments ?acc) = Inr d'"
      by (simp add: walk_snoc)
    from IH[OF this] True show ?thesis by (simp add: new_text_snoc)
  next
    case ne: False
    show ?thesis
    proof (cases "added c")
      case a: True
      with nb have nr: "\<not> removed c" by simp
      obtain r where step: "reduceStep from ?acc c =
          \<lparr>fragments = fragments ?acc @ [INSERT ?p (?p + length ?v) ?v r],
           currentPos = length (new_text cs) + length ?v\<rparr>"
        using a nr ne cnt pos by (simp add: reduceStep_def Let_def)
      with snoc.prems(4) have
        "applyFragments ma d (fragments ?acc @ [INSERT ?p (?p + length ?v) ?v r]) = Inr d'"
        by (simp add: walk_snoc)
      from applyFragments_snoc_Inr[OF this] obtain d0 where
        app: "applyFragments ma d (fragments ?acc) = Inr d0" and
        one: "applyFragmentToTransaction ma d0 (INSERT ?p (?p + length ?v) ?v r) = Inr d'"
        by blast
      from apply_insert_Inr[OF one] obtain ms where "tr_insert d0 ?p ?v ms = Inr d'" by blast
      from text_of_tr_insert[OF this] have
        t': "text_of d' = take ?p (text_of d0) @ ?v @ drop ?p (text_of d0)" by simp
      from IH[OF app] a have "text_of d0 = pre @ new_text cs @ rest" by simp
      with t' snoc.prems(3) a nr show ?thesis by (simp add: new_text_snoc)
    next
      case na: False
      show ?thesis
      proof (cases "removed c")
        case r: True
        have step: "reduceStep from ?acc c =
          \<lparr>fragments = fragments ?acc @ [DELETE ?p (?p + length ?v)],
           currentPos = length (new_text cs)\<rparr>"
          using na r ne cnt pos by (simp add: reduceStep_def Let_def)
        with snoc.prems(4) have
          "applyFragments ma d (fragments ?acc @ [DELETE ?p (?p + length ?v)]) = Inr d'"
          by (simp add: walk_snoc)
        from applyFragments_snoc_Inr[OF this] obtain d0 where
          app: "applyFragments ma d (fragments ?acc) = Inr d0" and
          one: "tr_delete d0 ?p (?p + length ?v) = Inr d'"
          by auto
        from text_of_tr_delete[OF one] have
          t': "text_of d' = take ?p (text_of d0) @ drop (?p + length ?v) (text_of d0)" by simp
        from IH[OF app] na have "text_of d0 = pre @ new_text cs @ ?v @ rest" by simp
        with t' snoc.prems(3) na r show ?thesis by (simp add: new_text_snoc)
      next
        case nr: False
        have step: "reduceStep from ?acc c =
          \<lparr>fragments = fragments ?acc, currentPos = length (new_text cs) + length ?v\<rparr>"
          using na nr ne cnt pos by (simp add: reduceStep_def Let_def)
        with snoc.prems(4) have "applyFragments ma d (fragments ?acc) = Inr d'"
          by (simp add: walk_snoc)
        from IH[OF this] na nr show ?thesis by (simp add: new_text_snoc)
      qed
    qed
  qed
qed

lemma applied_patches_spell_replacement:
  assumes "from \<le> to" and "to \<le> length d"
    and "is_edit_script (diffChars (textBetween d from to) replacement)
           (textBetween d from to) replacement"
    and "applyFragments marksAcross d
           (getReplacementFragmentsFromReplacement diffChars d from to replacement) = Inr d'"
  shows "textBetween d' from (from + length replacement) = replacement
       \<and> text_of d' = take from (text_of d) @ replacement @ drop to (text_of d)"
proof -
  let ?cs = "diffChars (textBetween d from to) replacement"
  let ?T = "text_of d"
  from assms(3) have ok: "list_all run_ok ?cs" and o: "old_text ?cs = textBetween d from to"
    and n: "new_text ?cs = replacement" by (simp_all add: is_edit_script_def)
  have lenT: "length ?T = length d" by (simp add: text_of_def)
  have "drop from ?T = take (to - from) (drop from ?T) @ drop (to - from) (drop from ?T)"
    by (simp only: append_take_drop_id)
  moreover have "drop (to - from) (drop from ?T) = drop to ?T" using assms(1) by simp
  moreover have "?T = take from ?T @ drop from ?T" by (simp only: append_take_drop_id)
  ultimately have T: "?T = take from ?T @ old_text ?cs @ drop to ?T"
    using o by (simp add: textBetween_def)
  have lp: "length (take from ?T) = from" using assms(1,2) lenT by simp
  have "applyFragments marksAcross d (fragments (walk from ?cs)) = Inr d'"
    using assms(4) by (simp add: getReplacementFragmentsFromReplacement_def Let_def)
  from walk_applied_text[OF ok T lp this] have
    tx: "text_of d' = take from ?T @ new_text ?cs @ drop to ?T" .
  have "textBetween d' from (from + length replacement) = replacement"
    using tx n lp by (simp add: textBetween_def)
  then show ?thesis using tx n by simp
qed

lemma reduceStep_equal:
  "c_count c = Some n \<Longrightarrow> \<not> added c \<Longrightarrow> \<not> removed c \<Longrightarrow>
   reduceStep b acc c = \<lparr>fragments = fragments acc, currentPos = currentPos acc + n\<rparr>"
  by (simp add: reduceStep_def)

lemma reduceStep_removed:
  "c_count c = Some n \<Longrightarrow> 0 < n \<Longrightarrow> removed c \<Longrightarrow>
   reduceStep b acc c =
     \<lparr>fragments = fragments acc @ [DELETE (b + currentPos acc) (b + currentPos acc + n)],
      currentPos = currentPos acc\<rparr>"
  by (simp add: reduceStep_def Let_def)

lemma reduceStep_added:
  "c_count c = Some n \<Longrightarrow> 0 < n \<Longrightarrow> added c \<Longrightarrow> \<not> removed c \<Longrightarrow>
   reduceStep b acc c =
     \<lparr>fragments = fragments acc @
        [INSERT (b + currentPos acc) (b + currentPos acc + n) (c_value c)
           (if fragments acc \<noteq> [] \<and> p_to (last (fragments acc)) < b + currentPos acc
            then MarksOfLastChar (b + currentPos acc)
            else MarksAcrossRange (b + currentPos acc) (b + currentPos acc + n))],
      currentPos = currentPos acc + n\<rparr>"
  by (simp add: reduceStep_def Let_def isInsertion_def prevFragment_def)

lemma reduceStep_fragments_grow:
  "\<exists>more. fragments (reduceStep b acc c) = fragments acc @ more"
  by (simp add: reduceStep_def Let_def split: option.splits)

lemma foldl_fragments_grow:
  "\<exists>more. fragments (foldl (reduceStep b) acc cs) = fragments acc @ more"
proof (induction cs arbitrary: acc)
  case Nil
  then show ?case by simp
next
  case (Cons c cs)
  obtain m1 where m1: "fragments (reduceStep b acc c) = fragments acc @ m1"
    using reduceStep_fragments_grow by blast
  obtain m2 where "fragments (foldl (reduceStep b) (reduceStep b acc c) cs)
      = fragments (reduceStep b acc c) @ m2"
    using Cons.IH by blast
  with m1 show ?case by simp
qed

lemma walk_Cons_rest:
  "walk b (cs @ c # rest) = foldl (reduceStep b) (reduceStep b (walk b cs) c) rest"
  by (simp add: walk_def)

lemma empty_script_counts:
  assumes "is_edit_script cs [] []"
  shows "list_all (\<lambda>c. c_count c = Some 0) cs"
proof -
  have "c_count c = Some 0" if "c \<in> set cs" for c
  proof -
    from assms that have ok: "run_ok c" by (simp add: is_edit_script_def list_all_iff)
    have "c_value c = []"
    proof (cases "added c")
      case True
      with ok have "\<not> removed c" by (simp add: run_ok_def)
      with assms that show ?thesis by (auto simp: is_edit_script_def new_text_def)
    next
      case False
      with assms that show ?thesis by (auto simp: is_edit_script_def old_text_def)
    qed
    with ok show ?thesis by (simp add: run_ok_def)
  qed
  then show ?thesis by (simp add: list_all_iff)
qed

lemma foldl_zero_counts:
  "list_all (\<lambda>c. c_count c = Some 0) cs \<Longrightarrow> foldl (reduceStep b) acc cs = acc"
  by (induction cs arbitrary: acc) (simp_all add: reduceStep_def)

text \<open>
  C1 (round trip). The claim asks that the generated patches, applied in order, always leave
  the replacement in the region. The resolver of a replacing insertion resolves
  \<open>newTo = newFrom + count\<close>, the count of the added run, in the document that the
  preceding deletion has already shortened. Replacing \<open>cat\<close> by \<open>dog\<close> in \<open>a cat!\<close>,
  with a diff that is an edit script, the deletion leaves three characters, position 5 is
  outside the document, and the batch stops with a RangeError.
\<close>

theorem roundtrip_throws_after_deletion:
  "is_edit_script (example_diffChars (textBetween (plain ''a cat!'') 2 5) ''dog'')
     (textBetween (plain ''a cat!'') 2 5) ''dog''
   \<and> getReplacementFragmentsFromReplacement example_diffChars (plain ''a cat!'') 2 5 ''dog''
       = [DELETE 2 5, INSERT 2 5 ''dog'' (MarksAcrossRange 2 5)]
   \<and> applyFragmentToTransaction no_marks (plain ''a cat!'') (DELETE 2 5) = Inr (plain ''a !'')
   \<and> applyFragments no_marks (plain ''a cat!'')
       (getReplacementFragmentsFromReplacement example_diffChars (plain ''a cat!'') 2 5 ''dog'')
       = Inl RangeError"
  by (simp add: ex_defs)

text \<open>
  C7. In the walk over the runs, an equal run advances the cursor by its count and emits
  nothing; a removed run emits \<open>DELETE\<close> from \<open>baseFrom + currentPos\<close> to
  \<open>baseFrom + currentPos + count\<close> and leaves the cursor where it is; and the patcher on
  two empty texts yields no patches.
\<close>

theorem walk_equal_and_removed_runs:
  "(c_count c = Some n \<and> \<not> added c \<and> \<not> removed c \<longrightarrow>
      walk b (cs @ [c]) =
        \<lparr>fragments = fragments (walk b cs), currentPos = currentPos (walk b cs) + n\<rparr>)
   \<and> (c_count c = Some n \<and> 0 < n \<and> removed c \<longrightarrow>
      walk b (cs @ [c]) =
        \<lparr>fragments = fragments (walk b cs) @
           [DELETE (b + currentPos (walk b cs)) (b + currentPos (walk b cs) + n)],
         currentPos = currentPos (walk b cs)\<rparr>)
   \<and> (textBetween d b e = [] \<and> is_edit_script (diffChars [] []) [] [] \<longrightarrow>
      getReplacementFragmentsFromReplacement diffChars d b e [] = [])"
proof (intro conjI impI)
  assume "c_count c = Some n \<and> \<not> added c \<and> \<not> removed c"
  then show "walk b (cs @ [c]) =
        \<lparr>fragments = fragments (walk b cs), currentPos = currentPos (walk b cs) + n\<rparr>"
    by (simp add: walk_snoc reduceStep_equal)
next
  assume "c_count c = Some n \<and> 0 < n \<and> removed c"
  then show "walk b (cs @ [c]) =
        \<lparr>fragments = fragments (walk b cs) @
           [DELETE (b + currentPos (walk b cs)) (b + currentPos (walk b cs) + n)],
         currentPos = currentPos (walk b cs)\<rparr>"
    by (simp add: walk_snoc reduceStep_removed)
next
  assume h: "textBetween d b e = [] \<and> is_edit_script (diffChars [] []) [] []"
  then have "walk b (diffChars [] []) = \<lparr>fragments = [], currentPos = 0\<rparr>"
    unfolding walk_def by (intro foldl_zero_counts empty_script_counts) simp
  with h show "getReplacementFragmentsFromReplacement diffChars d b e [] = []"
    by (simp add: getReplacementFragmentsFromReplacement_def)
qed

theorem walk_equal_and_removed_runs_witness:
  "walk 2 ([removed_run ''ab''] @ [equal_run ''cat'']) =
      \<lparr>fragments = [DELETE 2 4], currentPos = 3\<rparr>
   \<and> walk 2 ([equal_run ''cat''] @ [removed_run ''ab'']) =
      \<lparr>fragments = [DELETE 5 7], currentPos = 3\<rparr>
   \<and> textBetween (plain ''cat'') 2 2 = [] \<and> is_edit_script (example_diffChars [] []) [] []
   \<and> getReplacementFragmentsFromReplacement example_diffChars (plain ''cat'') 2 2 [] = []"
proof -
  have e: "c_count (equal_run ''cat'') = Some 3 \<and> \<not> added (equal_run ''cat'')
      \<and> \<not> removed (equal_run ''cat'')"
    by (simp add: equal_run_def)
  have r: "c_count (removed_run ''ab'') = Some 2 \<and> (0::nat) < 2 \<and> removed (removed_run ''ab'')"
    by (simp add: removed_run_def)
  have w1: "walk 2 [removed_run ''ab''] = \<lparr>fragments = [DELETE 2 4], currentPos = 0\<rparr>"
    by (simp add: walk_def reduceStep_def removed_run_def)
  have w2: "walk 2 [equal_run ''cat''] = \<lparr>fragments = [], currentPos = 3\<rparr>"
    by (simp add: walk_def reduceStep_def equal_run_def)
  have s: "textBetween (plain ''cat'') 2 2 = [] \<and> is_edit_script (example_diffChars [] []) [] []"
    by (simp add: ex_defs)
  from walk_equal_and_removed_runs[of "equal_run ''cat''" 3 2 "[removed_run ''ab'']"
      "plain ''cat''" 2 example_diffChars] e w1
  have a: "walk 2 ([removed_run ''ab''] @ [equal_run ''cat'']) =
      \<lparr>fragments = [DELETE 2 4], currentPos = 3\<rparr>" by simp
  from walk_equal_and_removed_runs[of "removed_run ''ab''" 2 2 "[equal_run ''cat'']"
      "plain ''cat''" 2 example_diffChars] r w2 s
  have b: "walk 2 ([equal_run ''cat''] @ [removed_run ''ab'']) =
      \<lparr>fragments = [DELETE 5 7], currentPos = 3\<rparr>
     \<and> getReplacementFragmentsFromReplacement example_diffChars (plain ''cat'') 2 2 [] = []"
    by simp
  from a b s show ?thesis by simp
qed


text \<open>
  C4, as the code has it. For every added run (a count that is not zero, added, not removed)
  at any point of the walk, the patcher emits an \<open>INSERT\<close> whose \<open>from\<close> is
  \<open>baseFrom + currentPos\<close> and whose \<open>to\<close> is \<open>from + count\<close>, the end of the inserted
  text, and the cursor advances by the count; the patch stays in the list whatever runs
  follow. For \<open>cat\<close> and \<open>cats\<close> the result is the single \<open>INSERT\<close> with \<open>from = 3\<close>,
  \<open>to = 4\<close> and text \<open>s\<close>.
\<close>

theorem added_run_emits_insert:
  "(c_count c = Some n \<and> 0 < n \<and> added c \<and> \<not> removed c \<longrightarrow>
      (\<exists>resolver more.
         fragments (walk b (cs @ c # rest)) =
           fragments (walk b cs) @
           INSERT (b + currentPos (walk b cs)) (b + currentPos (walk b cs) + n) (c_value c) resolver
           # more)
      \<and> currentPos (walk b (cs @ [c])) = currentPos (walk b cs) + n)
   \<and> getReplacementFragmentsFromReplacement example_diffChars (plain ''cat'') 0 3 ''cats''
       = [INSERT 3 4 ''s'' (MarksAcrossRange 3 4)]"
proof (intro conjI impI)
  assume h: "c_count c = Some n \<and> 0 < n \<and> added c \<and> \<not> removed c"
  then have step: "reduceStep b (walk b cs) c =
     \<lparr>fragments = fragments (walk b cs) @
        [INSERT (b + currentPos (walk b cs)) (b + currentPos (walk b cs) + n) (c_value c)
           (if fragments (walk b cs) \<noteq> [] \<and> p_to (last (fragments (walk b cs))) < b + currentPos (walk b cs)
            then MarksOfLastChar (b + currentPos (walk b cs))
            else MarksAcrossRange (b + currentPos (walk b cs)) (b + currentPos (walk b cs) + n))],
      currentPos = currentPos (walk b cs) + n\<rparr>"
    by (simp add: reduceStep_added)
  obtain more where "fragments (walk b (cs @ c # rest)) = fragments (reduceStep b (walk b cs) c) @ more"
    unfolding walk_Cons_rest using foldl_fragments_grow by blast
  then show "\<exists>resolver more.
         fragments (walk b (cs @ c # rest)) =
           fragments (walk b cs) @
           INSERT (b + currentPos (walk b cs)) (b + currentPos (walk b cs) + n) (c_value c) resolver
           # more"
    using step by simp
  show "currentPos (walk b (cs @ [c])) = currentPos (walk b cs) + n"
    using step by (simp add: walk_snoc)
next
  show "getReplacementFragmentsFromReplacement example_diffChars (plain ''cat'') 0 3 ''cats''
       = [INSERT 3 4 ''s'' (MarksAcrossRange 3 4)]"
    by (simp add: ex_defs)
qed

theorem added_run_emits_insert_witness:
  "c_count (added_run ''s'') = Some 1 \<and> (0::nat) < 1 \<and> added (added_run ''s'')
     \<and> \<not> removed (added_run ''s'')
   \<and> (\<exists>resolver more.
         fragments (walk 0 ([equal_run ''cat''] @ added_run ''s'' # [])) =
           fragments (walk 0 [equal_run ''cat'']) @
           INSERT (0 + currentPos (walk 0 [equal_run ''cat'']))
                  (0 + currentPos (walk 0 [equal_run ''cat'']) + 1) (c_value (added_run ''s''))
                  resolver # more)
   \<and> currentPos (walk 0 ([equal_run ''cat''] @ [added_run ''s''])) = 4"
proof -
  have h: "c_count (added_run ''s'') = Some 1 \<and> (0::nat) < 1 \<and> added (added_run ''s'')
     \<and> \<not> removed (added_run ''s'')"
    by (simp add: added_run_def)
  have w: "currentPos (walk 0 [equal_run ''cat'']) = 3"
    by (simp add: walk_def reduceStep_def equal_run_def)
  from added_run_emits_insert[of "added_run ''s''" 1 0 "[equal_run ''cat'']" "[]"] h w
  show ?thesis by simp
qed

text \<open>
  C4 as stated asks for \<open>from = to\<close> on every \<open>INSERT\<close>. On \<open>cat\<close> and \<open>cats\<close> the
  emitted patch has \<open>from = 3\<close> and \<open>to = 4\<close>.
\<close>

theorem insert_from_equals_to_counterexample:
  "getReplacementFragmentsFromReplacement example_diffChars (plain ''cat'') 0 3 ''cats''
     = [INSERT 3 4 ''s'' (MarksAcrossRange 3 4)]
   \<and> p_from (hd (getReplacementFragmentsFromReplacement example_diffChars (plain ''cat'') 0 3 ''cats''))
     \<noteq> p_to (hd (getReplacementFragmentsFromReplacement example_diffChars (plain ''cat'') 0 3 ''cats''))"
  by (simp add: ex_defs)

text \<open>
  C5. The claim asks that an insertion which replaces removed content takes the marks that
  span the full original range being replaced. Replacing \<open>cat\<close>, the range \<open>[2, 5)\<close> of
  \<open>a cat!\<close>, by \<open>horse\<close>, the resolver of the insertion spans \<open>[2, 7)\<close>: it ends at
  \<open>newFrom\<close> plus the count of the added run, and it is run on the document after the
  deletion, where position 7 does not exist.
\<close>

theorem replacement_resolver_spans_added_count:
  "getReplacementFragmentsFromReplacement example_diffChars (plain ''a cat!'') 2 5 ''horse''
     = [DELETE 2 5, INSERT 2 7 ''horse'' (MarksAcrossRange 2 7)]
   \<and> getMarks (getReplacementFragmentsFromReplacement example_diffChars (plain ''a cat!'') 2 5
                 ''horse'' ! 1)
     \<noteq> MarksAcrossRange 2 5
   \<and> applyFragmentToTransaction no_marks (plain ''a cat!'') (DELETE 2 5) = Inr (plain ''a !'')
   \<and> runGetMarks no_marks (MarksAcrossRange 2 7) (plain ''a !'') = Inl RangeError"
  by (simp add: ex_defs)

section \<open>Properties of the adapter\<close>

lemma decimal_404: "decimal 404 = ''404''"
  by (simp add: decimal.simps digit_def)

text \<open>
  C8. When the server answers with a status other than 200, the adapter fails with the error
  whose message spells the status code in decimal and the status text, and there are no
  outputs; when it answers 200, the adapter returns one output for each result, with the id of
  the input and the result's positions moved by the input's \<open>from\<close>.
\<close>

theorem adapter_status:
  assumes "fetch \<lparr>req_url = apiUrl, req_method = ''POST'',
                  req_content_type = ''application/json'', req_text = in_str input\<rparr>
             = Inr response"
  shows "(status response \<noteq> 200 \<longrightarrow>
            createTyperighterAdapter fetch apiUrl input =
              Inl (Error (''Error fetching validations. The server responded with status code ''
                          @ decimal (status response) @ '': '' @ statusText response)))
       \<and> (status response = 200 \<longrightarrow>
            (\<exists>outs. createTyperighterAdapter fetch apiUrl input = Inr outs
               \<and> length outs = length (results response)
               \<and> (\<forall>i < length outs.
                     out_id (outs ! i) = in_id input
                   \<and> out_from (outs ! i) = in_from input + fromPos (results response ! i)
                   \<and> out_to (outs ! i) = in_from input + toPos (results response ! i))))"
  using assms by (simp add: createTyperighterAdapter_def)

theorem adapter_status_witness:
  "createTyperighterAdapter (example_fetch 404 ''Not Found'') ''http://typerighter/check''
       example_input
     = Inl (Error ''Error fetching validations. The server responded with status code 404: Not Found'')
   \<and> (\<exists>outs. createTyperighterAdapter (example_fetch 200 ''OK'') ''http://typerighter/check''
                example_input = Inr outs
        \<and> length outs = 1 \<and> out_id (outs ! 0) = ''v1''
        \<and> out_from (outs ! 0) = 22 \<and> out_to (outs ! 0) = 25)"
proof -
  let ?rq = "\<lparr>req_url = ''http://typerighter/check'', req_method = ''POST'',
                  req_content_type = ''application/json'', req_text = in_str example_input\<rparr>"
  have f4: "example_fetch 404 ''Not Found'' ?rq = Inr \<lparr>status = 404, statusText = ''Not Found'',
          results = [\<lparr>fromPos = 2, toPos = 5, match_message = ''Spelling'',
                      rule_description = ''Dictionary'', suggestedReplacements = [''cat'']\<rparr>]\<rparr>"
    by (simp add: example_fetch_def)
  have f2: "example_fetch 200 ''OK'' ?rq = Inr \<lparr>status = 200, statusText = ''OK'',
          results = [\<lparr>fromPos = 2, toPos = 5, match_message = ''Spelling'',
                      rule_description = ''Dictionary'', suggestedReplacements = [''cat'']\<rparr>]\<rparr>"
    by (simp add: example_fetch_def)
  from adapter_status[of "example_fetch 404 ''Not Found''" "''http://typerighter/check''"
      example_input, OF f4] have a:
    "createTyperighterAdapter (example_fetch 404 ''Not Found'') ''http://typerighter/check''
       example_input
     = Inl (Error ''Error fetching validations. The server responded with status code 404: Not Found'')"
    by (simp add: decimal_404)
  from adapter_status[of "example_fetch 200 ''OK''" "''http://typerighter/check''"
      example_input, OF f2] have b:
    "\<exists>outs. createTyperighterAdapter (example_fetch 200 ''OK'') ''http://typerighter/check''
                example_input = Inr outs
        \<and> length outs = 1 \<and> out_id (outs ! 0) = ''v1''
        \<and> out_from (outs ! 0) = 22 \<and> out_to (outs ! 0) = 25"
    by (auto simp: example_input_def)
  from a b show ?thesis by simp
qed

section \<open>Properties of the reducer\<close>

lemmas handler_defs = handleNewHoverId_def handleValidationRequestPending_def
  handleValidationRequestStart_def handleValidationRequestSuccess_def
  handleValidationRequestError_def

lemma example_inflight_state_eq:
  "example_inflight_state =
     \<lparr>debug = False, initialThrottle = 500, currentThrottle = 500, maxThrottle = 8000,
      decorations = [\<lparr>dec_from = 5, dec_to = 10, dec_type = ''DECORATION_INFLIGHT''\<rparr>],
      currentValidations = [],
      dirtiedRanges = [],
      hoverId = None, hoverInfo = None, trHistory = [example_tr],
      validationPending = False,
      validationInFlight = Some \<lparr>validationInputs = [\<lparr>vi_str = ''56789'', vi_from = 5, vi_to = 10\<rparr>],
                                  inflight_id = 10\<rparr>,
      error = None\<rparr>"
  by (simp add: example_inflight_state_def example_state_def example_helpers_def example_tr_def
      handleValidationRequestStart_def Let_def ds_add_def textBetween_def text_of_def plain_def)

lemma success_without_outputs_returns_state:
  "validationPluginReducer h tr s (VALIDATION_REQUEST_SUCCESS None) = s"
  "validationPluginReducer h tr s (VALIDATION_REQUEST_SUCCESS (Some \<lparr>validationOutputs = []\<rparr>)) = s"
  by (simp_all add: handleValidationRequestSuccess_def)

lemma mapRange_no_ops: "mapRange r [] = r"
  by (simp add: mapRange_def)

lemma mergeRanges_single: "mergeRanges [r] = [r]"
  by (simp add: mergeRanges_def)

lemma mergeScan_covers:
  "sorted (map r_from xs) \<Longrightarrow> x \<in> set xs \<Longrightarrow>
   \<exists>q \<in> set (mergeScan xs). r_from q \<le> r_from x \<and> r_to x \<le> r_to q"
proof (induction xs arbitrary: x rule: mergeScan.induct)
  case (1 previous current rest)
  show ?case
  proof (cases "r_from current \<le> r_to previous")
    case True
    let ?p = "previous\<lparr>r_to := max (r_to previous) (r_to current)\<rparr>"
    have s: "sorted (map r_from (?p # rest))" using "1.prems"(1) by auto
    have le: "r_from previous \<le> r_from current" using "1.prems"(1) by simp
    have "\<exists>y \<in> set (?p # rest). r_from y \<le> r_from x \<and> r_to x \<le> r_to y"
      using "1.prems"(2) le by auto
    then obtain y where y: "y \<in> set (?p # rest)" "r_from y \<le> r_from x" "r_to x \<le> r_to y"
      by blast
    from "1.IH"(1)[OF True s y(1)] obtain q where
      "q \<in> set (mergeScan (?p # rest))" "r_from q \<le> r_from y" "r_to y \<le> r_to q" by blast
    with y True show ?thesis by (auto intro!: bexI[of _ q])
  next
    case False
    have s: "sorted (map r_from (current # rest))" using "1.prems"(1) by simp
    show ?thesis
    proof (cases "x = previous")
      case True
      with False show ?thesis by auto
    next
      case ne: False
      with "1.prems"(2) have "x \<in> set (current # rest)" by simp
      from "1.IH"(2)[OF False s this] False show ?thesis by auto
    qed
  qed
qed simp_all

lemma mergeRanges_covers:
  assumes "x \<in> set xs"
  shows "\<exists>q \<in> set (mergeRanges xs). r_from q \<le> r_from x \<and> r_to x \<le> r_to q"
proof -
  have "sorted (map r_from (sort_key r_from xs))" by (rule sorted_sort_key)
  moreover have "x \<in> set (sort_key r_from xs)" using assms by simp
  ultimately show ?thesis unfolding mergeRanges_def by (rule mergeScan_covers)
qed

text \<open>
  C2. The claim asks that every success action leaves no descriptor in flight and no
  in-flight decoration. With a response that carries no outputs the handler returns the state
  it was given: after a request has started from the example state, the descriptor and the
  in-flight decoration are still there.
\<close>

theorem success_with_no_outputs_stays_in_flight:
  "validationInFlight
     (validationPluginReducer example_helpers example_tr example_inflight_state
        (VALIDATION_REQUEST_SUCCESS (Some \<lparr>validationOutputs = []\<rparr>)))
     = Some \<lparr>validationInputs = [\<lparr>vi_str = ''56789'', vi_from = 5, vi_to = 10\<rparr>],
             inflight_id = 10\<rparr>
   \<and> ds_find
       (decorations
          (validationPluginReducer example_helpers example_tr example_inflight_state
             (VALIDATION_REQUEST_SUCCESS (Some \<lparr>validationOutputs = []\<rparr>))))
       (\<lambda>d. dec_type d = DECORATION_INFLIGHT example_helpers)
     = [\<lparr>dec_from = 5, dec_to = 10, dec_type = ''DECORATION_INFLIGHT''\<rparr>]"
  by (simp add: example_inflight_state_eq handleValidationRequestSuccess_def ds_find_def
      example_helpers_def)

text \<open>
  C3. On a request error the reducer maps the range of the failed input through the history
  since the request's id, merges the mapped ranges into the dirty ranges when there are any,
  records the message and clears the descriptor in flight. With no edit operation since the
  request, the mapped range is the input's range: it is merged into the dirty ranges, some
  dirty range covers it, and it is the only dirty range when there was none.
\<close>

theorem request_error_requeues:
  assumes "s' = validationPluginReducer h tr s (VALIDATION_REQUEST_ERROR e)"
    and "mapped = mapRangeThroughTransactions [validationInputToRange (validationInput e)]
                    (err_id e) (trHistory s)"
  shows "dirtiedRanges s' =
           (if mapped \<noteq> [] then mergeRanges (dirtiedRanges s @ mapped) else dirtiedRanges s)
       \<and> error s' = Some (err_message e)
       \<and> validationInFlight s' = None
       \<and> (editOperationsSince (err_id e) (trHistory s) = [] \<longrightarrow>
            mapped = [validationInputToRange (validationInput e)]
          \<and> dirtiedRanges s' =
              mergeRanges (dirtiedRanges s @ [validationInputToRange (validationInput e)])
          \<and> (\<exists>q \<in> set (dirtiedRanges s').
                r_from q \<le> vi_from (validationInput e) \<and> vi_to (validationInput e) \<le> r_to q)
          \<and> (dirtiedRanges s = [] \<longrightarrow>
                dirtiedRanges s' = [validationInputToRange (validationInput e)]))"
proof -
  let ?r = "validationInputToRange (validationInput e)"
  have m: "mapped = [mapRange ?r (editOperationsSince (err_id e) (trHistory s))]"
    using assms(2) by (simp add: mapRangeThroughTransactions_def)
  have d: "dirtiedRanges s' = mergeRanges (dirtiedRanges s @ mapped)"
    and e: "error s' = Some (err_message e)" and f: "validationInFlight s' = None"
    using assms(1) m by (simp_all add: handleValidationRequestError_def Let_def
        mapRangeThroughTransactions_def)
  have "\<exists>q \<in> set (mergeRanges (dirtiedRanges s @ [?r])).
          r_from q \<le> r_from ?r \<and> r_to ?r \<le> r_to q"
    by (rule mergeRanges_covers) simp
  then have c: "\<exists>q \<in> set (mergeRanges (dirtiedRanges s @ [?r])).
          r_from q \<le> vi_from (validationInput e) \<and> vi_to (validationInput e) \<le> r_to q"
    by (simp add: validationInputToRange_def)
  show ?thesis using m d e f c by (auto simp: mapRange_no_ops mergeRanges_single)
qed

theorem request_error_requeues_witness:
  "editOperationsSince 10 (trHistory example_inflight_state) = []
   \<and> dirtiedRanges example_inflight_state = []
   \<and> dirtiedRanges
       (validationPluginReducer example_helpers example_tr example_inflight_state
          (VALIDATION_REQUEST_ERROR
             \<lparr>validationInput = \<lparr>vi_str = ''56789'', vi_from = 5, vi_to = 10\<rparr>,
              err_id = 10, err_message = ''Failed to fetch''\<rparr>))
     = [\<lparr>r_from = 5, r_to = 10\<rparr>]
   \<and> error
       (validationPluginReducer example_helpers example_tr example_inflight_state
          (VALIDATION_REQUEST_ERROR
             \<lparr>validationInput = \<lparr>vi_str = ''56789'', vi_from = 5, vi_to = 10\<rparr>,
              err_id = 10, err_message = ''Failed to fetch''\<rparr>))
     = Some ''Failed to fetch''"
proof -
  let ?e = "\<lparr>validationInput = \<lparr>vi_str = ''56789'', vi_from = 5, vi_to = 10\<rparr>,
              err_id = 10, err_message = ''Failed to fetch''\<rparr>"
  have h: "editOperationsSince 10 (trHistory example_inflight_state) = []"
    by (simp add: example_inflight_state_eq editOperationsSince_def example_tr_def)
  have d: "dirtiedRanges example_inflight_state = []"
    by (simp add: example_inflight_state_eq)
  from request_error_requeues[OF refl refl, of example_helpers example_tr example_inflight_state ?e]
    h d
  show ?thesis by (simp add: validationInputToRange_def mergeRanges_single)
qed

text \<open>
  C6. After a request start the dirty ranges are empty, nothing is pending, and the descriptor
  in flight holds the expanded dirty ranges, each with its text in the transaction's document,
  under the transaction's time as id.
\<close>

theorem request_start_state:
  "dirtiedRanges (validationPluginReducer h tr s VALIDATION_REQUEST_START) = []
   \<and> validationPending (validationPluginReducer h tr s VALIDATION_REQUEST_START) = False
   \<and> validationInFlight (validationPluginReducer h tr s VALIDATION_REQUEST_START) =
       Some \<lparr>validationInputs =
               map (\<lambda>range. \<lparr>vi_str = textBetween (doc tr) (r_from range) (r_to range),
                             vi_from = r_from range, vi_to = r_to range\<rparr>)
                   (getRangesOfParentBlockNodes h (dirtiedRanges s) (doc tr)),
             inflight_id = time tr\<rparr>"
  by (simp add: handleValidationRequestStart_def Let_def)

text \<open>
  C9. Whatever the action, the reducer returns the three throttle durations of the state it was
  given.
\<close>

theorem reducer_keeps_throttle:
  "initialThrottle (validationPluginReducer h tr s a) = initialThrottle s
   \<and> currentThrottle (validationPluginReducer h tr s a) = currentThrottle s
   \<and> maxThrottle (validationPluginReducer h tr s a) = maxThrottle s"
  by (cases a) (simp_all add: handler_defs Let_def split: option.splits)

text \<open>
  C10. A new hover id sets \<open>hoverId\<close> and \<open>hoverInfo\<close> to the payload and leaves every other
  field of the state as it was.
\<close>

theorem new_hover_id_frame:
  "hoverId (validationPluginReducer h tr s (NEW_HOVER_ID i info)) = i
   \<and> hoverInfo (validationPluginReducer h tr s (NEW_HOVER_ID i info)) = info
   \<and> validationPluginReducer h tr s (NEW_HOVER_ID i info) = s\<lparr>hoverId := i, hoverInfo := info\<rparr>
   \<and> decorations (validationPluginReducer h tr s (NEW_HOVER_ID i info)) = decorations s
   \<and> currentValidations (validationPluginReducer h tr s (NEW_HOVER_ID i info)) = currentValidations s
   \<and> dirtiedRanges (validationPluginReducer h tr s (NEW_HOVER_ID i info)) = dirtiedRanges s
   \<and> trHistory (validationPluginReducer h tr s (NEW_HOVER_ID i info)) = trHistory s
   \<and> validationPending (validationPluginReducer h tr s (NEW_HOVER_ID i info)) = validationPending s
   \<and> validationInFlight (validationPluginReducer h tr s (NEW_HOVER_ID i info)) = validationInFlight s
   \<and> error (validationPluginReducer h tr s (NEW_HOVER_ID i info)) = error s
   \<and> initialThrottle (validationPluginReducer h tr s (NEW_HOVER_ID i info)) = initialThrottle s
   \<and> currentThrottle (validationPluginReducer h tr s (NEW_HOVER_ID i info)) = currentThrottle s
   \<and> maxThrottle (validationPluginReducer h tr s (NEW_HOVER_ID i info)) = maxThrottle s
   \<and> debug (validationPluginReducer h tr s (NEW_HOVER_ID i info)) = debug s"
  by (simp add: handleNewHoverId_def)

end
